theory Spec2Isabelle
  imports Complex_Main
begin

section \<open>JavaScript values and strings\<close>

text \<open>
  A JavaScript string is modelled as a \<^typ>\<open>string\<close>, one \<^typ>\<open>char\<close> per code unit. All the
  string operations of the scripts that are modelled here (\<open>split\<close>, \<open>endsWith\<close>,
  \<open>replace\<close> with a one-character global pattern, \<open>+\<close>, \<open>join\<close>) work unit by unit.
  The values that reach \<open>escapeHtml\<close> are \<open>null\<close> (a missing attribute), \<open>undefined\<close> or
  a string.
\<close>

datatype js_value = JSNull | JSUndefined | JSString string

text \<open>Truthiness (\<open>!str\<close> is its negation): the empty string is falsy, as \<open>null\<close> and \<open>undefined\<close>.\<close>

fun truthy :: "js_value \<Rightarrow> bool" where
  "truthy JSNull = False"
| "truthy JSUndefined = False"
| "truthy (JSString s) = (s \<noteq> [])"

text \<open>\<open>String(v)\<close>.\<close>

fun String_of :: "js_value \<Rightarrow> string" where
  "String_of JSNull = ''null''"
| "String_of JSUndefined = ''undefined''"
| "String_of (JSString s) = s"

text \<open>\<open>s.replace(/c/g, rep)\<close> for a pattern that is the single character \<open>c\<close>.\<close>

definition replace_g :: "char \<Rightarrow> string \<Rightarrow> string \<Rightarrow> string" where
  "replace_g c rep s = concat (map (\<lambda>x. if x = c then rep else [x]) s)"

abbreviation dquote :: char where "dquote \<equiv> CHR 0x22"
abbreviation squote :: char where "squote \<equiv> CHR 0x27"

section \<open>MBUtil: \<open>escapeHtml\<close> and \<open>navList\<close>\<close>

definition escapeHtml :: "js_value \<Rightarrow> string" where
  "escapeHtml str =
     (if \<not> truthy str then []
      else replace_g squote ''&#39;''
            (replace_g dquote ''&quot;''
              (replace_g CHR ''>'' ''&gt;''
                (replace_g CHR ''<'' ''&lt;''
                  (replace_g CHR ''&'' ''&amp;'' (String_of str))))))"

text \<open>The entity of one character: what the five replacements together do to it.\<close>

definition entity :: "char \<Rightarrow> string" where
  "entity c =
     (if c = CHR ''&'' then ''&amp;''
      else if c = CHR ''<'' then ''&lt;''
      else if c = CHR ''>'' then ''&gt;''
      else if c = dquote then ''&quot;''
      else if c = squote then ''&#39;''
      else [c])"


text \<open>
  \<open>'depth-' + indent\<close>: a non-negative integer printed in decimal.
\<close>

definition digits :: string where
  "digits = ''0123456789''"

fun string_of_nat :: "nat \<Rightarrow> string" where
  "string_of_nat n =
     (if n < 10 then [digits ! n] else string_of_nat (n div 10) @ [digits ! (n mod 10)])"

text \<open>
  An anchor of the nav element, as \<open>navList\<close> reads it: the tag names of its ancestors
  below \<open>nav\<close> (from \<open>parentElement\<close> upwards, \<open>nav\<close> excluded), the attributes \<open>href\<close>
  and \<open>target\<close> (\<open>getAttribute\<close> gives \<open>null\<close>, here \<open>None\<close>, for a missing one) and the
  text content.
\<close>

record nav_link =
  ancestors :: "string list"
  href_attr :: "string option"
  target_attr :: "string option"
  textContent :: string

text \<open>\<open>getAttribute(name) || ''\<close>: a missing or empty attribute gives the empty string.\<close>

definition or_empty :: "string option \<Rightarrow> string" where
  "or_empty a = (case a of None \<Rightarrow> [] | Some v \<Rightarrow> v)"

text \<open>The \<open>while\<close> loop over the parents, then \<open>Math.max(0, indent - 1)\<close>.\<close>

definition link_indent :: "nav_link \<Rightarrow> nat" where
  "link_indent l = nat (max 0 (int (length (filter (\<lambda>t. t = ''LI'') (ancestors l))) - 1))"

text \<open>
  The markup pushed for one link up to its label: the opening tag with its attributes
  and the empty indentation \<open>span\<close>.
\<close>

definition link_open :: "nav_link \<Rightarrow> string" where
  \<open>link_open l =
     (let indent = link_indent l;
          href = or_empty (href_attr l);
          target = or_empty (target_attr l)
      in ''<a '' @
         ''class="link depth-'' @ string_of_nat indent @ ''"'' @
         (if target \<noteq> [] then '' target="'' @ escapeHtml (JSString target) @ ''"'' else []) @
         (if href \<noteq> [] then '' href="'' @ escapeHtml (JSString href) @ ''"'' else []) @
         ''>'' @
         ''<span class="indent-'' @ string_of_nat indent @ ''"></span>'')\<close>

definition navList :: "nav_link list \<Rightarrow> string" where
  "navList links =
     concat (map (\<lambda>l. link_open l @ escapeHtml (JSString (textContent l)) @ ''</a>'') links)"

section \<open>MBSecure: \<open>getBasePath\<close>\<close>

text \<open>\<open>s.split(sep)\<close> for a one-character separator: the empty string gives one empty piece.\<close>

fun split_on :: "char \<Rightarrow> string \<Rightarrow> string list" where
  "split_on sep [] = [[]]"
| "split_on sep (c # cs) =
     (if c = sep then [] # split_on sep cs
      else (case split_on sep cs of [] \<Rightarrow> [[c]] | w # ws \<Rightarrow> (c # w) # ws))"

definition endsWith :: "string \<Rightarrow> string \<Rightarrow> bool" where
  "endsWith s suffix =
     (length suffix \<le> length s \<and> drop (length s - length suffix) s = suffix)"

text \<open>\<open>xs.join(sep)\<close>.\<close>

fun join :: "string \<Rightarrow> string list \<Rightarrow> string" where
  "join sep [] = []"
| "join sep [x] = x"
| "join sep (x # y # ys) = x @ sep @ join sep (y # ys)"

record location =
  pathname :: string
  hostname :: string

text \<open>
  \<open>segments ! 0\<close> is read only where \<open>segments\<close> is not empty. In the last branch
  \<open>segments\<close> has two elements at least, or one in a directory, so that \<open>depth\<close> is positive.
\<close>

definition getBasePath :: "location \<Rightarrow> string" where
  "getBasePath loc =
     (let path = pathname loc;
          segments = filter (\<lambda>s. s \<noteq> []) (split_on CHR ''/'' path);
          isGitHubProjectSite =
            (endsWith (hostname loc) ''.github.io'' \<and> length segments > 0 \<and>
             segments ! 0 \<noteq> ''index.html'');
          segments = (if isGitHubProjectSite then drop 1 segments else segments);
          isInDirectory = (endsWith path ''/'' \<and> path \<noteq> ''/'')
      in if length segments = 0 \<or> (length segments = 1 \<and> \<not> isInDirectory) then []
         else let depth = (if isInDirectory then length segments else length segments - 1)
              in join ''/'' (replicate depth ''..'') @ ''/'')"

section \<open>The DOM token list of an element\<close>

text \<open>
  \<open>classList\<close> is an ordered set of tokens: \<open>contains\<close> is membership, \<open>remove\<close> deletes
  the token, \<open>add\<close> appends it unless it is there, \<open>toggle\<close> removes it when it is there
  and adds it otherwise.
\<close>

definition classList_contains :: "string list \<Rightarrow> string \<Rightarrow> bool" where
  "classList_contains cl c = (c \<in> set cl)"

definition classList_remove :: "string list \<Rightarrow> string \<Rightarrow> string list" where
  "classList_remove cl c = removeAll c cl"

definition classList_add :: "string list \<Rightarrow> string \<Rightarrow> string list" where
  "classList_add cl c = (if c \<in> set cl then cl else cl @ [c])"

definition classList_toggle :: "string list \<Rightarrow> string \<Rightarrow> string list" where
  "classList_toggle cl c = (if classList_contains cl c then classList_remove cl c else classList_add cl c)"

section \<open>MBUtil: \<open>panel\<close>\<close>

text \<open>
  The configuration after \<open>Object.assign\<close> with the defaults. \<open>side\<close> is a string or
  \<open>null\<close>; \<open>target\<close> is the element whose class list the state below holds.
\<close>

record panel_config =
  delay :: nat
  hideOnClick :: bool
  hideOnEscape :: bool
  hideOnSwipe :: bool
  resetScroll :: bool
  resetForms :: bool
  side :: "string option"
  visibleClass :: string

text \<open>
  What a listener can do to the event it is given: the two calls that \<open>hide\<close> and the
  listeners make are recorded.
\<close>

record dom_event =
  preventDefault_called :: bool
  stopPropagation_called :: bool

text \<open>
  A callback given to \<open>setTimeout\<close> by \<open>hide\<close>, with the delay: the closure reads
  \<open>config.resetScroll\<close> and \<open>config.resetForms\<close> when it runs.
\<close>

record cleanup =
  after_ms :: nat
  reset_scroll :: bool
  reset_forms :: bool

text \<open>
  The state that the panel's closures share: the class list of \<open>config.target\<close>, the
  pending timers in the order of their scheduling, the recorded touch start
  (\<open>touchPosX\<close>, \<open>touchPosY\<close>: both are set together and reset together) and the scroll offset
  of the panel element.
\<close>

record panel_state =
  target_classList :: "string list"
  timers :: "cleanup list"
  touchPos :: "(real \<times> real) option"
  scrollTop :: real

definition suppress :: "dom_event \<Rightarrow> dom_event" where
  "suppress event = event\<lparr>preventDefault_called := True, stopPropagation_called := True\<rparr>"

text \<open>\<open>hide(event)\<close>; the event is \<open>None\<close> for a call without an argument.\<close>

definition hide :: "panel_config \<Rightarrow> dom_event option \<Rightarrow> panel_state \<Rightarrow> dom_event option \<times> panel_state" where
  "hide config event s =
     (if \<not> classList_contains (target_classList s) (visibleClass config) then (event, s)
      else (map_option suppress event,
            s\<lparr>target_classList := classList_remove (target_classList s) (visibleClass config),
              timers := timers s @
                [\<lparr>after_ms = delay config, reset_scroll = resetScroll config,
                  reset_forms = resetForms config\<rparr>]\<rparr>))"

text \<open>
  The listeners of \<open>click\<close> on \<open>body\<close>, in the order of their registration. \<open>link\<close> says
  whether \<open>event.target.closest('a[href="#' + id + '"]')\<close> finds an anchor. The listeners
  on the panel element stop the propagation of a click inside the panel, so these two see
  the clicks outside of it. \<open>stopPropagation\<close> in the first does not keep the second,
  registered on the same element, from running.
\<close>

definition body_click_toggle :: "panel_config \<Rightarrow> bool \<Rightarrow> dom_event \<times> panel_state \<Rightarrow> dom_event \<times> panel_state" where
  "body_click_toggle config link es =
     (case es of (event, s) \<Rightarrow>
        if link
        then (suppress event,
              s\<lparr>target_classList := classList_toggle (target_classList s) (visibleClass config)\<rparr>)
        else (event, s))"

definition body_click_hide :: "panel_config \<Rightarrow> bool \<Rightarrow> dom_event \<times> panel_state \<Rightarrow> dom_event \<times> panel_state" where
  "body_click_hide config link es =
     (case es of (event, s) \<Rightarrow>
        if link then (event, s)
        else (case hide config (Some event) s of (e', s') \<Rightarrow> (case e' of None \<Rightarrow> event | Some e \<Rightarrow> e, s')))"

definition body_click :: "panel_config \<Rightarrow> bool \<Rightarrow> dom_event \<times> panel_state \<Rightarrow> dom_event \<times> panel_state" where
  "body_click config link es = body_click_hide config link (body_click_toggle config link es)"

text \<open>A click on the toggle anchor, with a fresh event, as a step on the panel's state.\<close>

definition fresh_event :: dom_event where
  "fresh_event = \<lparr>preventDefault_called = False, stopPropagation_called = False\<rparr>"

definition toggle_click :: "panel_config \<Rightarrow> panel_state \<Rightarrow> panel_state" where
  "toggle_click config s = snd (body_click config True (fresh_event, s))"

definition visible :: "panel_config \<Rightarrow> panel_state \<Rightarrow> bool" where
  "visible config s = classList_contains (target_classList s) (visibleClass config)"

text \<open>
  The touch listeners of the panel element. A touch event carries the page coordinates
  of its first touch point; the differences are taken exactly. The geometry of the element
  is read when the listener runs.
\<close>

record touch_event =
  pageX :: real
  pageY :: real

record panel_geometry =
  el_offsetHeight :: real
  el_scrollHeight :: real

definition touchstart :: "touch_event \<Rightarrow> panel_state \<Rightarrow> panel_state" where
  "touchstart t s = s\<lparr>touchPos := Some (pageX t, pageY t)\<rparr>"

text \<open>The \<open>switch\<close> on \<open>config.side\<close>; \<open>result\<close> stays \<open>false\<close> when no case matches.\<close>

definition swipe_result :: "string option \<Rightarrow> real \<Rightarrow> real \<Rightarrow> bool" where
  "swipe_result sd diffX diffY =
     (let boundary = 20; delta = 50
      in if sd = Some ''left'' then (diffY < boundary \<and> diffY > - boundary) \<and> (diffX > delta)
         else if sd = Some ''right'' then (diffY < boundary \<and> diffY > - boundary) \<and> (diffX < - delta)
         else if sd = Some ''top'' then (diffX < boundary \<and> diffX > - boundary) \<and> (diffY > delta)
         else if sd = Some ''bottom'' then (diffX < boundary \<and> diffX > - boundary) \<and> (diffY < - delta)
         else False)"

record touchmove_outcome =
  hide_called :: bool
  event_after :: dom_event
  state_after :: panel_state

definition touchmove :: "panel_config \<Rightarrow> panel_geometry \<Rightarrow> touch_event \<Rightarrow> dom_event \<Rightarrow> panel_state \<Rightarrow> touchmove_outcome" where
  "touchmove config g t event s =
     (case touchPos s of
        None \<Rightarrow> \<lparr>hide_called = False, event_after = event, state_after = s\<rparr>
      | Some (touchPosX, touchPosY) \<Rightarrow>
          let diffX = touchPosX - pageX t;
              diffY = touchPosY - pageY t;
              th = el_offsetHeight g;
              ts = el_scrollHeight g - scrollTop s
          in if hideOnSwipe config \<and> swipe_result (side config) diffX diffY
             then \<lparr>hide_called = True, event_after = event,
                   state_after = snd (hide config None (s\<lparr>touchPos := None\<rparr>))\<rparr>
             else if (scrollTop s < 0 \<and> diffY < 0) \<or> (ts > th - 2 \<and> ts < th + 2 \<and> diffY > 0)
                  then \<lparr>hide_called = False, event_after = suppress event, state_after = s\<rparr>
                  else \<lparr>hide_called = False, event_after = event, state_after = s\<rparr>)"

text \<open>
  The swipe rule in the words of the specification (compared with the code below): the
  displacement across the side within 20px either way, strictly, and the displacement
  towards the side of 50px at least.
\<close>

definition spec_swipe_hides :: "panel_config \<Rightarrow> real \<Rightarrow> real \<Rightarrow> bool" where
  "spec_swipe_hides config diffX diffY =
     (hideOnSwipe config \<and>
      (side config = Some ''left'' \<and> \<bar>diffY\<bar> < 20 \<and> diffX \<ge> 50 \<or>
       side config = Some ''right'' \<and> \<bar>diffY\<bar> < 20 \<and> - diffX \<ge> 50 \<or>
       side config = Some ''top'' \<and> \<bar>diffX\<bar> < 20 \<and> diffY \<ge> 50 \<or>
       side config = Some ''bottom'' \<and> \<bar>diffX\<bar> < 20 \<and> - diffY \<ge> 50))"

text \<open>The rule that the code follows: the displacement towards the side exceeds 50px.\<close>

definition swipe_hides :: "panel_config \<Rightarrow> real \<Rightarrow> real \<Rightarrow> bool" where
  "swipe_hides config diffX diffY =
     (hideOnSwipe config \<and>
      (side config = Some ''left'' \<and> \<bar>diffY\<bar> < 20 \<and> diffX > 50 \<or>
       side config = Some ''right'' \<and> \<bar>diffY\<bar> < 20 \<and> - diffX > 50 \<or>
       side config = Some ''top'' \<and> \<bar>diffX\<bar> < 20 \<and> diffY > 50 \<or>
       side config = Some ''bottom'' \<and> \<bar>diffX\<bar> < 20 \<and> - diffY > 50))"

section \<open>Navigation component: the scroll spy of the homepage\<close>

text \<open>
  A \<open>section[id]\<close> element: its \<open>id\<close> attribute and its layout box (\<open>offsetTop\<close> and
  \<open>offsetHeight\<close> are integers).
\<close>

record page_section =
  section_id :: string
  offsetTop :: int
  offsetHeight :: int

text \<open>
  \<open>window.scrollY + window.innerHeight * 0.3\<close>, with the product and the sum taken
  exactly. All that is proved about the search below holds for every value of the probe.
\<close>

definition scrollPos_of :: "real \<Rightarrow> int \<Rightarrow> real" where
  "scrollPos_of scrollY innerHeight = scrollY + real_of_int innerHeight * (3 / 10)"

definition section_contains :: "real \<Rightarrow> page_section \<Rightarrow> bool" where
  "section_contains scrollPos sec =
     (let top = offsetTop sec; bottom = top + offsetHeight sec
      in scrollPos \<ge> real_of_int top \<and> scrollPos < real_of_int bottom)"

text \<open>The \<open>forEach\<close> of \<open>onScroll\<close>: every section that matches overwrites \<open>foundSection\<close>.\<close>

definition foundSection :: "page_section list \<Rightarrow> real \<Rightarrow> string option" where
  "foundSection sections scrollPos =
     foldl (\<lambda>found sec. if section_contains scrollPos sec then Some (section_id sec) else found)
       None sections"

text \<open>
  The first match, in the words of the specification (compared with the code below).
\<close>

definition spec_first_match :: "page_section list \<Rightarrow> real \<Rightarrow> string option" where
  "spec_first_match sections scrollPos =
     map_option section_id (find (section_contains scrollPos) sections)"

text \<open>
  The nav element as the component fills it (\<open>navElement.innerHTML = navHTML\<close>): in
  \<open>div.nav-container\<close> the logo anchor, then the list, each item an \<open>li\<close> that holds one
  anchor. \<open>navItem\<close> gives the element that its markup denotes.
\<close>

record nav_item =
  li_classList :: "string list"
  a_href :: string
  a_classList :: "string list"
  a_label :: string

definition navItem :: "string \<Rightarrow> string \<Rightarrow> bool \<Rightarrow> bool \<Rightarrow> nav_item" where
  "navItem href label isCurrent scrolly =
     \<lparr>li_classList = (if isCurrent then [''current''] else []),
      a_href = href,
      a_classList = (if scrolly then [''scrolly''] else []),
      a_label = label\<rparr>"

record nav_dom =
  container_classList :: "string list"
  logo_href :: string
  nav_items :: "nav_item list"

definition homepage_nav :: "location \<Rightarrow> nav_dom" where
  "homepage_nav loc =
     (let basePath = getBasePath loc;
          homeLink = (if basePath \<noteq> [] then basePath @ ''index.html'' else ''index.html'')
      in \<lparr>container_classList = [''nav-container''],
          logo_href = homeLink,
          nav_items =
            [navItem ''#about'' ''About'' False True,
             navItem ''services/'' ''Services'' False False,
             navItem ''#contact'' ''Contact'' False True,
             navItem ''blog/index.html'' ''Blog'' False False]\<rparr>)"

text \<open>
  The anchors of the nav element in document order, as \<open>navList\<close> reads them: the logo
  anchor lies in \<open>div.nav-container\<close>; an item's anchor in \<open>li\<close>, \<open>ul\<close>, \<open>div.nav-links\<close>
  and \<open>div.nav-container\<close>.
\<close>

definition nav_anchors :: "nav_dom \<Rightarrow> nav_link list" where
  "nav_anchors n =
     \<lparr>ancestors = [''DIV''], href_attr = Some (logo_href n), target_attr = None, textContent = []\<rparr> #
     map (\<lambda>it. \<lparr>ancestors = [''LI'', ''UL'', ''DIV'', ''DIV''], href_attr = Some (a_href it),
                 target_attr = None, textContent = a_label it\<rparr>) (nav_items n)"

text \<open>
  A link of the mobile panel. \<open>panel_links\<close> gives the elements that the markup of
  \<open>navList\<close> denotes once it is assigned to \<open>navPanel.innerHTML\<close>: one anchor per link, with
  the two classes, and the \<open>href\<close> attribute when the source anchor has a non-empty one.
\<close>

record mobile_link =
  m_classList :: "string list"
  m_href :: "string option"

definition panel_links :: "nav_link list \<Rightarrow> mobile_link list" where
  "panel_links links =
     map (\<lambda>l. \<lparr>m_classList = [''link'', ''depth-'' @ string_of_nat (link_indent l)],
                m_href = (if or_empty (href_attr l) \<noteq> [] then Some (or_empty (href_attr l)) else None)\<rparr>)
       links"

text \<open>
  The state of the scroll spy: the variable \<open>currentSection\<close> of the closure, the nav
  element, and the links of \<open>#navPanel\<close> (\<open>None\<close> when the page has no such element).
\<close>

record spy_state =
  currentSection :: "string option"
  nav :: nav_dom
  navPanel :: "mobile_link list option"

definition homepage_start :: "location \<Rightarrow> bool \<Rightarrow> spy_state" where
  "homepage_start loc has_panel =
     \<lparr>currentSection = None,
      nav = homepage_nav loc,
      navPanel = (if has_panel then Some (panel_links (nav_anchors (homepage_nav loc))) else None)\<rparr>"

text \<open>\<open>if (id)\<close>: neither \<open>null\<close> nor the empty string.\<close>

definition truthy_id :: "string option \<Rightarrow> bool" where
  "truthy_id i = (case i of None \<Rightarrow> False | Some v \<Rightarrow> v \<noteq> [])"

text \<open>
  The selectors \<open>a[href="#id"]\<close> and \<open>.link[href="#id"]\<close> are built by concatenation.
  They denote the test that the attribute equals \<open>#id\<close> when \<open>id\<close> holds no double quote,
  backslash or line break; the properties of the update below are stated for such ids.
\<close>

definition selector_safe :: "string \<Rightarrow> bool" where
  "selector_safe i =
     (dquote \<notin> set i \<and> CHR 0x5C \<notin> set i \<and> CHR 0x0A \<notin> set i \<and> CHR 0x0C \<notin> set i \<and> CHR 0x0D \<notin> set i)"

definition safe_id :: "string option \<Rightarrow> bool" where
  "safe_id i = (case i of None \<Rightarrow> True | Some v \<Rightarrow> selector_safe v)"

text \<open>Apply \<open>f\<close> to the first element that satisfies \<open>P\<close> (\<open>querySelector\<close>, then a change).\<close>

fun update_first :: "('a \<Rightarrow> bool) \<Rightarrow> ('a \<Rightarrow> 'a) \<Rightarrow> 'a list \<Rightarrow> 'a list" where
  "update_first P f [] = []"
| "update_first P f (x # xs) = (if P x then f x # xs else x # update_first P f xs)"

text \<open>
  The desktop part: \<open>current\<close> is removed from the parent of every \<open>a.scrolly\<close>;
  then it is added to the parent of the first anchor of the nav element whose \<open>href\<close> is
  \<open>#id\<close>: the logo anchor comes first, its parent is the container.
\<close>

definition clear_desktop :: "nav_dom \<Rightarrow> nav_dom" where
  "clear_desktop n =
     n\<lparr>nav_items :=
         map (\<lambda>it. if ''scrolly'' \<in> set (a_classList it)
                    then it\<lparr>li_classList := classList_remove (li_classList it) ''current''\<rparr>
                    else it) (nav_items n)\<rparr>"

definition mark_desktop :: "string \<Rightarrow> nav_dom \<Rightarrow> nav_dom" where
  "mark_desktop i n =
     (if logo_href n = CHR ''#'' # i
      then n\<lparr>container_classList := classList_add (container_classList n) ''current''\<rparr>
      else n\<lparr>nav_items :=
               update_first (\<lambda>it. a_href it = CHR ''#'' # i)
                 (\<lambda>it. it\<lparr>li_classList := classList_add (li_classList it) ''current''\<rparr>)
                 (nav_items n)\<rparr>)"

definition clear_mobile :: "mobile_link list \<Rightarrow> mobile_link list" where
  "clear_mobile links =
     map (\<lambda>l. if ''link'' \<in> set (m_classList l)
               then l\<lparr>m_classList := classList_remove (m_classList l) ''current''\<rparr>
               else l) links"

definition mark_mobile :: "string \<Rightarrow> mobile_link list \<Rightarrow> mobile_link list" where
  "mark_mobile i links =
     update_first (\<lambda>l. ''link'' \<in> set (m_classList l) \<and> m_href l = Some (CHR ''#'' # i))
       (\<lambda>l. l\<lparr>m_classList := classList_add (m_classList l) ''current''\<rparr>) links"

definition updateCurrentSection :: "string option \<Rightarrow> spy_state \<Rightarrow> spy_state" where
  "updateCurrentSection i s =
     (if currentSection s = i then s
      else let n1 = clear_desktop (nav s);
               n2 = (if truthy_id i then mark_desktop (the i) n1 else n1);
               p2 = (case navPanel s of
                       None \<Rightarrow> None
                     | Some links \<Rightarrow>
                         let l1 = clear_mobile links
                         in Some (if truthy_id i then mark_mobile (the i) l1 else l1))
           in \<lparr>currentSection = i, nav = n2, navPanel = p2\<rparr>)"

definition onScroll :: "page_section list \<Rightarrow> real \<Rightarrow> int \<Rightarrow> spy_state \<Rightarrow> spy_state" where
  "onScroll sections scrollY innerHeight s =
     updateCurrentSection (foundSection sections (scrollPos_of scrollY innerHeight)) s"

text \<open>The number of list items of the desktop nav, and of links of the panel, marked \<open>current\<close>.\<close>

definition current_items :: "spy_state \<Rightarrow> nat" where
  "current_items s = length (filter (\<lambda>it. ''current'' \<in> set (li_classList it)) (nav_items (nav s)))"

definition current_links :: "spy_state \<Rightarrow> nat" where
  "current_links s =
     (case navPanel s of
        None \<Rightarrow> 0
      | Some links \<Rightarrow> length (filter (\<lambda>l. ''current'' \<in> set (m_classList l)) links))"

section \<open>Blog meta: the structured data of a blog post\<close>

text \<open>
  The \<open>dataset\<close> of the article: a data attribute that is missing reads as \<open>undefined\<close>,
  here \<open>None\<close>.
\<close>

record article_dataset =
  headline :: "string option"
  datePublished :: "string option"
  dateModified :: "string option"
  description :: "string option"
  image_attr :: "string option"

text \<open>The site configuration of \<open>site-config.js\<close>.\<close>

record social_links =
  linkedin :: string
  github :: string
  x_url :: string

record site_config =
  contact_email :: string
  contact_phone :: string
  social :: "social_links option"
  siteName :: string
  logoAlt :: string

definition SITE_CONFIG :: site_config where
  "SITE_CONFIG =
     \<lparr>contact_email = ''Marcus@MBSecure.nl'',
      contact_phone = ''+31 6 41 54 50 71'',
      social = Some \<lparr>linkedin = ''https://www.linkedin.com/in/marcusbakker'',
                     github = ''https://github.com/marcusbakker'',
                     x_url = ''https://x.com/Bakk3rM''\<rparr>,
      siteName = ''MB Secure'',
      logoAlt = ''MB Secure''\<rparr>"

text \<open>The object given to \<open>JSON.stringify\<close>: strings and objects with their keys in order.\<close>

datatype json = JString string | JObject "(string \<times> json) list"

fun json_field :: "json \<Rightarrow> string \<Rightarrow> json option" where
  "json_field (JString v) k = None"
| "json_field (JObject kvs) k = map_of kvs k"

text \<open>\<open>!v\<close> for a value that is \<open>undefined\<close> or a string, and \<open>a || b\<close> on such values.\<close>

definition present :: "string option \<Rightarrow> bool" where
  "present v = (case v of None \<Rightarrow> False | Some t \<Rightarrow> t \<noteq> [])"

definition or_else :: "string option \<Rightarrow> string option \<Rightarrow> string option" where
  "or_else a b = (if present a then a else b)"

text \<open>
  What the listener of \<open>DOMContentLoaded\<close> does: it returns early without an article or
  without the placeholder, warns and returns when a required attribute is missing, and
  appends the script element with the structured data otherwise.
\<close>

datatype blogmeta_outcome = NoArticle | NoPlaceholder | MissingData | Emitted json

definition BlogMeta :: "site_config option \<Rightarrow> article_dataset option \<Rightarrow> bool \<Rightarrow> blogmeta_outcome" where
  "BlogMeta config_global article metaPlaceholder =
     (case article of
        None \<Rightarrow> NoArticle
      | Some a \<Rightarrow>
          if \<not> metaPlaceholder then NoPlaceholder
          else let headline' = headline a;
                   datePublished' = datePublished a;
                   dateModified' = or_else (dateModified a) datePublished';
                   description' = description a;
                   image' = image_attr a
               in if \<not> present headline' \<or> \<not> present datePublished' then MissingData
                  else let authorUrl =
                             (case config_global of
                                None \<Rightarrow> ''https://www.linkedin.com/in/marcusbakker''
                              | Some c \<Rightarrow>
                                  (case social c of
                                     None \<Rightarrow> ''https://www.linkedin.com/in/marcusbakker''
                                   | Some so \<Rightarrow> linkedin so));
                           structuredData =
                             [(''@context'', JString ''https://schema.org''),
                              (''@type'', JString ''BlogPosting''),
                              (''headline'', JString (the headline')),
                              (''datePublished'', JString (the datePublished')),
                              (''dateModified'', JString (the dateModified')),
                              (''author'', JObject
                                 [(''@type'', JString ''Person''),
                                  (''name'', JString ''Marcus Bakker''),
                                  (''url'', JString authorUrl)]),
                              (''publisher'', JObject
                                 [(''@type'', JString ''Organization''),
                                  (''name'', JString ''MB Secure''),
                                  (''logo'', JObject
                                     [(''@type'', JString ''ImageObject''),
                                      (''url'', JString ''https://mbsecure.nl/images/logo.png'')])]),
                              (''description'', JString (or_empty (or_else description' (Some []))))]
                       in Emitted (JObject
                            (if present image' then structuredData @ [(''image'', JString (the image'))]
                             else structuredData)))"

section \<open>Instances used in the examples\<close>

text \<open>The configuration that \<open>main.js\<close> gives to \<open>MBUtil.panel\<close> for \<open>#navPanel\<close>.\<close>

definition navPanel_config :: panel_config where
  "navPanel_config =
     \<lparr>delay = 0, hideOnClick = True, hideOnEscape = False, hideOnSwipe = True,
      resetScroll = True, resetForms = True, side = Some ''right'',
      visibleClass = ''navPanel-visible''\<rparr>"

text \<open>
  A state of that panel with the panel hidden: \<open>body\<close>, its target, carries two other
  classes; no timer is pending and no touch has started.
\<close>

definition example_panel_state :: panel_state where
  "example_panel_state =
     \<lparr>target_classList = [''homepage'', ''is-preload''], timers = [], touchPos = None,
      scrollTop = 0\<rparr>"

text \<open>An article with a headline and a publication date, and no date of modification.\<close>

definition example_article :: article_dataset where
  "example_article =
     \<lparr>headline = Some ''X'', datePublished = Some ''2020-01-01'', dateModified = None,
      description = None, image_attr = None\<rparr>"

section \<open>The invariant of the scroll spy\<close>

text \<open>
  An item of the desktop nav is in order when its anchor is an \<open>a.scrolly\<close>, which every
  update clears, or when it is not marked and no selector \<open>a[href="#id"]\<close> can find it.
  The invariant: the logo anchor cannot be found by such a selector either, every link of
  the panel has the class \<open>link\<close>, and at most one item and one link are marked.
\<close>

definition item_ok :: "nav_item \<Rightarrow> bool" where
  "item_ok it = (''scrolly'' \<in> set (a_classList it) \<or>
     (''current'' \<notin> set (li_classList it) \<and> (\<forall>i. a_href it \<noteq> CHR ''#'' # i)))"

definition spy_inv :: "spy_state \<Rightarrow> bool" where
  "spy_inv s =
     ((\<forall>i. logo_href (nav s) \<noteq> CHR ''#'' # i) \<and>
      (\<forall>it \<in> set (nav_items (nav s)). item_ok it) \<and>
      (case navPanel s of None \<Rightarrow> True
       | Some links \<Rightarrow> \<forall>l \<in> set links. ''link'' \<in> set (m_classList l)) \<and>
      current_items s \<le> 1 \<and> current_links s \<le> 1)"

section \<open>Properties of \<open>escapeHtml\<close>\<close>

lemma replace_g_Nil: "replace_g c rep [] = []"
  by (simp add: replace_g_def)

lemma replace_g_Cons:
  "replace_g c rep (x # xs) = (if x = c then rep else [x]) @ replace_g c rep xs"
  by (simp add: replace_g_def)

lemma replace_g_append: "replace_g c rep (xs @ ys) = replace_g c rep xs @ replace_g c rep ys"
  by (simp add: replace_g_def)

lemma five_replacements:
  "replace_g squote ''&#39;''
     (replace_g dquote ''&quot;''
       (replace_g CHR ''>'' ''&gt;''
         (replace_g CHR ''<'' ''&lt;''
           (replace_g CHR ''&'' ''&amp;'' s)))) = concat (map entity s)"
proof (induction s)
  case Nil
  show ?case by (simp add: replace_g_Nil)
next
  case (Cons x xs)
  show ?case
    by (simp add: replace_g_Cons replace_g_append replace_g_Nil entity_def Cons.IH)
qed

lemma escapeHtml_string: "escapeHtml (JSString s) = concat (map entity s)"
  by (cases s) (simp_all add: escapeHtml_def five_replacements replace_g_Nil)

lemma entity_no_markup:
  "CHR ''<'' \<notin> set (entity c)" "CHR ''>'' \<notin> set (entity c)"
  "dquote \<notin> set (entity c)" "squote \<notin> set (entity c)"
  by (simp_all add: entity_def)

lemma concat_entity_no_markup:
  "CHR ''<'' \<notin> set (concat (map entity s))" "CHR ''>'' \<notin> set (concat (map entity s))"
  "dquote \<notin> set (concat (map entity s))" "squote \<notin> set (concat (map entity s))"
  by (induction s) (simp_all add: entity_no_markup)

text \<open>
  Claim C10. For the falsy inputs \<open>null\<close>, \<open>undefined\<close> and the empty string, \<open>escapeHtml\<close>
  returns the empty string; for every string input, its result holds no raw \<open><\<close>, \<open>>\<close>,
  double quote or single quote.
\<close>

theorem escapeHtml_falsy_and_no_markup:
  "escapeHtml JSNull = [] \<and> escapeHtml JSUndefined = [] \<and> escapeHtml (JSString []) = [] \<and>
   CHR ''<'' \<notin> set (escapeHtml (JSString s)) \<and> CHR ''>'' \<notin> set (escapeHtml (JSString s)) \<and>
   dquote \<notin> set (escapeHtml (JSString s)) \<and> squote \<notin> set (escapeHtml (JSString s))"
proof -
  have "escapeHtml JSNull = []" "escapeHtml JSUndefined = []" "escapeHtml (JSString []) = []"
    by (simp_all add: escapeHtml_def)
  then show ?thesis
    by (simp add: escapeHtml_string entity_no_markup)
qed

section \<open>Properties of \<open>navList\<close>\<close>

declare string_of_nat.simps [simp del]

lemma digits_nth_in: "n < 10 \<Longrightarrow> digits ! n \<in> set digits"
  by (rule nth_mem) (simp add: digits_def)

lemma string_of_nat_digits: "set (string_of_nat n) \<subseteq> set digits"
proof (induction n rule: string_of_nat.induct)
  case (1 n)
  show ?case
  proof (cases "n < 10")
    case True
    then show ?thesis
      using digits_nth_in [of n] by (subst string_of_nat.simps) simp
  next
    case False
    have "n mod 10 < 10" by simp
    then have "digits ! (n mod 10) \<in> set digits" by (rule digits_nth_in)
    with False "1.IH" show ?thesis
      by (subst string_of_nat.simps) simp
  qed
qed

lemma string_of_nat_no_angle:
  "CHR ''<'' \<notin> set (string_of_nat n)" "CHR ''>'' \<notin> set (string_of_nat n)"
  using string_of_nat_digits [of n] by (auto simp: digits_def)

lemma count_string_of_nat:
  "count_list (string_of_nat n) CHR ''<'' = 0" "count_list (string_of_nat n) CHR ''>'' = 0"
  by (simp_all add: count_list_0_iff string_of_nat_no_angle)

lemma count_escapeHtml:
  "count_list (escapeHtml (JSString s)) CHR ''<'' = 0"
  "count_list (escapeHtml (JSString s)) CHR ''>'' = 0"
  by (simp_all only: count_list_0_iff escapeHtml_string concat_entity_no_markup not_False_eq_True)

lemma count_link_open:
  "count_list (link_open l) CHR ''<'' = 3" "count_list (link_open l) CHR ''>'' = 3"
  by (simp_all add: link_open_def Let_def count_string_of_nat count_escapeHtml)

lemma count_navList:
  "count_list (navList links) CHR ''<'' = 4 * length links"
  "count_list (navList links) CHR ''>'' = 4 * length links"
  by (induction links) (simp_all add: navList_def count_link_open count_escapeHtml)

lemma escapeHtml_script: "escapeHtml (JSString ''<script>'') = ''&lt;script&gt;''"
  by (simp add: escapeHtml_string entity_def)

text \<open>
  Claim C9. In the markup that \<open>navList\<close> builds, the label of every link stands in its
  escaped form, each of \<open>&\<close>, \<open><\<close>, \<open>>\<close>, the double and the single quote replaced by
  its entity; whatever the labels, targets and hrefs are, the markup holds four \<open><\<close> and
  four \<open>>\<close> per link, those of the tags of \<open>navList\<close>'s own; the label \<open><script>\<close> comes
  out as \<open>&lt;script&gt;\<close>.
\<close>

theorem navList_label_escaped:
  \<open>navList links =
     concat (map (\<lambda>l. link_open l @ concat (map entity (textContent l)) @ ''</a>'') links) \<and>
   count_list (navList links) CHR ''<'' = 4 * length links \<and>
   count_list (navList links) CHR ''>'' = 4 * length links \<and>
   navList [\<lparr>ancestors = [''LI'', ''UL''], href_attr = Some ''#about'', target_attr = None,
             textContent = ''<script>''\<rparr>] =
     ''<a class="link depth-0" href="#about"><span class="indent-0"></span>&lt;script&gt;</a>''\<close>
proof -
  have form: "navList links =
      concat (map (\<lambda>l. link_open l @ concat (map entity (textContent l)) @ ''</a>'') links)"
    by (simp add: navList_def escapeHtml_string)
  have zero: "string_of_nat 0 = ''0''"
    by (subst string_of_nat.simps) (simp add: digits_def)
  have example: \<open>navList [\<lparr>ancestors = [''LI'', ''UL''], href_attr = Some ''#about'',
        target_attr = None, textContent = ''<script>''\<rparr>] =
      ''<a class="link depth-0" href="#about"><span class="indent-0"></span>&lt;script&gt;</a>''\<close>
    by (simp add: navList_def link_open_def link_indent_def or_empty_def zero
        escapeHtml_string entity_def)
  from form count_navList [of links] example show ?thesis
    by blast
qed

section \<open>Properties of \<open>getBasePath\<close>\<close>

lemma split_on_not_Nil: "split_on sep s \<noteq> []"
  by (induction s) (auto split: list.splits)

lemma split_on_segment:
  "sep \<notin> set xs \<Longrightarrow> split_on sep (xs @ sep # rest) = xs # split_on sep rest"
  by (induction xs) auto

lemma endsWith_single: "endsWith s [c] = (s \<noteq> [] \<and> last s = c)"
proof (cases s rule: rev_cases)
  case Nil
  then show ?thesis by (simp add: endsWith_def)
next
  case (snoc ys y)
  then show ?thesis by (auto simp: endsWith_def)
qed

lemma segments_project:
  assumes "project \<noteq> []" "CHR ''/'' \<notin> set project"
  shows "filter (\<lambda>s. s \<noteq> []) (split_on CHR ''/'' (''/'' @ project @ ''/'' @ rest)) =
         project # filter (\<lambda>s. s \<noteq> []) (split_on CHR ''/'' rest)"
  using assms split_on_segment [of "CHR ''/''" project rest] by simp

lemma segments_root:
  "filter (\<lambda>s. s \<noteq> []) (split_on CHR ''/'' (''/'' @ rest)) =
   filter (\<lambda>s. s \<noteq> []) (split_on CHR ''/'' rest)"
  by simp

text \<open>
  Claim C3. On a host that ends in \<open>.github.io\<close>, for a path \<open>/project/rest\<close> whose first
  segment \<open>project\<close> is a folder name other than \<open>index.html\<close>, \<open>getBasePath\<close> returns what
  it returns on another host for the path \<open>/rest\<close>.
\<close>

theorem getBasePath_project_prefix:
  assumes gh: "endsWith gh_host ''.github.io''"
    and other: "\<not> endsWith other_host ''.github.io''"
    and proj: "project \<noteq> []" "CHR ''/'' \<notin> set project" "project \<noteq> ''index.html''"
  shows "getBasePath \<lparr>pathname = ''/'' @ project @ ''/'' @ rest, hostname = gh_host\<rparr> =
         getBasePath \<lparr>pathname = ''/'' @ rest, hostname = other_host\<rparr>"
proof -
  let ?segs = "filter (\<lambda>s. s \<noteq> []) (split_on CHR ''/'' rest)"
  have g: "filter (\<lambda>s. s \<noteq> []) (split_on CHR ''/'' (''/'' @ project @ ''/'' @ rest)) = project # ?segs"
    using proj(1,2) by (rule segments_project)
  have o: "filter (\<lambda>s. s \<noteq> []) (split_on CHR ''/'' (''/'' @ rest)) = ?segs"
    by (rule segments_root)
  show ?thesis
  proof (cases "rest = []")
    case True
    have "split_on CHR ''/'' (project @ ''/'') = [project, []]"
      using proj(2) split_on_segment [of "CHR ''/''" project "[]"] by simp
    with True show ?thesis
      using gh other proj by (simp add: getBasePath_def Let_def)
  next
    case False
    then have dir: "endsWith (''/'' @ project @ ''/'' @ rest) ''/'' = endsWith (''/'' @ rest) ''/''"
      by (simp add: endsWith_single)
    have ne: "''/'' @ project @ ''/'' @ rest \<noteq> ''/''" "''/'' @ rest \<noteq> ''/''"
      using False by simp_all
    show ?thesis
      unfolding getBasePath_def Let_def
      using gh other proj dir ne g o by simp
  qed
qed

theorem getBasePath_project_prefix_witness:
  "endsWith ''marcusprivate.github.io'' ''.github.io'' \<and>
   \<not> endsWith ''mbsecure.nl'' ''.github.io'' \<and>
   getBasePath \<lparr>pathname = ''/my-project/blog/index.html'', hostname = ''marcusprivate.github.io''\<rparr> =
   getBasePath \<lparr>pathname = ''/blog/index.html'', hostname = ''mbsecure.nl''\<rparr>"
proof -
  have gh: "endsWith ''marcusprivate.github.io'' ''.github.io''"
    by (simp add: endsWith_def)
  have other: "\<not> endsWith ''mbsecure.nl'' ''.github.io''"
    by (simp add: endsWith_def)
  have "getBasePath \<lparr>pathname = ''/'' @ ''my-project'' @ ''/'' @ ''blog/index.html'', hostname = ''marcusprivate.github.io''\<rparr> =
        getBasePath \<lparr>pathname = ''/'' @ ''blog/index.html'', hostname = ''mbsecure.nl''\<rparr>"
    by (rule getBasePath_project_prefix [OF gh other]) simp_all
  with gh other show ?thesis by simp
qed

text \<open>
  Claim C1, as amended. On a host that is not a GitHub Pages host, \<open>getBasePath\<close> returns
  \<open>../\<close> for the path \<open>/blog/index.html\<close>, \<open>../\<close> for \<open>/blog/\<close> and \<open>../../../\<close> for
  \<open>/blog/2024/01/post.html\<close>: the file name counts as a segment, and the depth of a file
  path is the number of segments less one.
\<close>

theorem getBasePath_examples:
  assumes "\<not> endsWith host ''.github.io''"
  shows "getBasePath \<lparr>pathname = ''/blog/index.html'', hostname = host\<rparr> = ''../'' \<and>
         getBasePath \<lparr>pathname = ''/blog/'', hostname = host\<rparr> = ''../'' \<and>
         getBasePath \<lparr>pathname = ''/blog/2024/01/post.html'', hostname = host\<rparr> = ''../../../''"
proof -
  have a: "getBasePath \<lparr>pathname = ''/blog/index.html'', hostname = host\<rparr> = ''../''"
    using assms by (simp add: getBasePath_def endsWith_single)
  have b: "getBasePath \<lparr>pathname = ''/blog/'', hostname = host\<rparr> = ''../''"
    using assms by (simp add: getBasePath_def endsWith_single)
  have c: "getBasePath \<lparr>pathname = ''/blog/2024/01/post.html'', hostname = host\<rparr> = ''../../../''"
    using assms by (simp add: getBasePath_def endsWith_single)
  from a b c show ?thesis by simp
qed

theorem getBasePath_examples_witness:
  "\<not> endsWith ''mbsecure.nl'' ''.github.io'' \<and>
   getBasePath \<lparr>pathname = ''/blog/index.html'', hostname = ''mbsecure.nl''\<rparr> = ''../'' \<and>
   getBasePath \<lparr>pathname = ''/blog/'', hostname = ''mbsecure.nl''\<rparr> = ''../'' \<and>
   getBasePath \<lparr>pathname = ''/blog/2024/01/post.html'', hostname = ''mbsecure.nl''\<rparr> = ''../../../''"
proof -
  have h: "\<not> endsWith ''mbsecure.nl'' ''.github.io''"
    by (simp add: endsWith_def)
  from h getBasePath_examples [OF h] show ?thesis by simp
qed

text \<open>
  The values that the specification lists for these three paths (the empty string,
  \<open>../\<close> and \<open>../../\<close>) are not those of the code.
\<close>

theorem getBasePath_spec_values_counterexample:
  "\<not> (getBasePath \<lparr>pathname = ''/blog/index.html'', hostname = ''mbsecure.nl''\<rparr> = [] \<and>
      getBasePath \<lparr>pathname = ''/blog/'', hostname = ''mbsecure.nl''\<rparr> = ''../'' \<and>
      getBasePath \<lparr>pathname = ''/blog/2024/01/post.html'', hostname = ''mbsecure.nl''\<rparr> = ''../../'')"
  by (simp add: getBasePath_def endsWith_def)

section \<open>Properties of the scroll spy's search\<close>

lemma foldl_last_match:
  "foldl (\<lambda>found sec. if P sec then Some (f sec) else found) acc secs =
     (if filter P secs = [] then acc else Some (f (last (filter P secs))))"
  by (induction secs arbitrary: acc) simp_all

lemma foundSection_last:
  "foundSection sections p =
     (if filter (section_contains p) sections = [] then None
      else Some (section_id (last (filter (section_contains p) sections))))"
  unfolding foundSection_def by (rule foldl_last_match)

text \<open>
  Claim C2, as amended. When the probe point lies in the vertical range of two or more
  sections, the section that \<open>onScroll\<close> selects is the last of them in document order:
  each matching section overwrites the one found before.
\<close>

theorem foundSection_last_match:
  assumes "2 \<le> length (filter (section_contains p) sections)"
  shows "foundSection sections p =
         Some (section_id (last (filter (section_contains p) sections)))"
proof -
  from assms have "filter (section_contains p) sections \<noteq> []"
    by auto
  then show ?thesis
    by (simp add: foundSection_last)
qed

theorem foundSection_last_match_witness:
  "2 \<le> length (filter (section_contains (scrollPos_of 30 100))
       [\<lparr>section_id = ''about'', offsetTop = 0, offsetHeight = 100\<rparr>,
        \<lparr>section_id = ''contact'', offsetTop = 50, offsetHeight = 100\<rparr>]) \<and>
   foundSection
       [\<lparr>section_id = ''about'', offsetTop = 0, offsetHeight = 100\<rparr>,
        \<lparr>section_id = ''contact'', offsetTop = 50, offsetHeight = 100\<rparr>] (scrollPos_of 30 100) =
     Some ''contact''"
proof -
  let ?secs = "[\<lparr>section_id = ''about'', offsetTop = 0, offsetHeight = 100\<rparr>,
        \<lparr>section_id = ''contact'', offsetTop = 50, offsetHeight = 100\<rparr>]"
  have h: "2 \<le> length (filter (section_contains (scrollPos_of 30 100)) ?secs)"
    by (simp add: section_contains_def scrollPos_of_def)
  from foundSection_last_match [OF h] h show ?thesis
    by (simp add: section_contains_def scrollPos_of_def)
qed

text \<open>
  Two overlapping sections and a probe point in both: the first match is \<open>about\<close>, the
  section selected is \<open>contact\<close>.
\<close>

theorem first_match_counterexample:
  "section_contains (scrollPos_of 30 100) \<lparr>section_id = ''about'', offsetTop = 0, offsetHeight = 100\<rparr> \<and>
   section_contains (scrollPos_of 30 100) \<lparr>section_id = ''contact'', offsetTop = 50, offsetHeight = 100\<rparr> \<and>
   spec_first_match
       [\<lparr>section_id = ''about'', offsetTop = 0, offsetHeight = 100\<rparr>,
        \<lparr>section_id = ''contact'', offsetTop = 50, offsetHeight = 100\<rparr>] (scrollPos_of 30 100) =
     Some ''about'' \<and>
   foundSection
       [\<lparr>section_id = ''about'', offsetTop = 0, offsetHeight = 100\<rparr>,
        \<lparr>section_id = ''contact'', offsetTop = 50, offsetHeight = 100\<rparr>] (scrollPos_of 30 100) =
     Some ''contact''"
  by (simp add: section_contains_def scrollPos_of_def spec_first_match_def foundSection_def)

section \<open>Properties of the panel\<close>

lemma hide_hidden:
  "\<not> classList_contains (target_classList s) (visibleClass config) \<Longrightarrow> hide config event s = (event, s)"
  by (simp add: hide_def)

lemma hidden_after_hide:
  "\<not> classList_contains (target_classList (snd (hide config event s))) (visibleClass config)"
  by (simp add: hide_def classList_contains_def classList_remove_def)

lemma hide_twice:
  "hide config event' (snd (hide config event s)) = (event', snd (hide config event s))"
  by (rule hide_hidden) (rule hidden_after_hide)

text \<open>
  Claim C4. When the target does not carry the visible class, \<open>hide\<close> changes nothing:
  the class list and the pending timers are as before, and the event is not suppressed.
  Hence a second call in succession changes nothing either.
\<close>

theorem hide_when_hidden:
  assumes "\<not> classList_contains (target_classList s) (visibleClass config)"
  shows "hide config event s = (event, s) \<and>
         hide config event' (snd (hide config event s)) = (event', s)"
proof -
  have once: "hide config event s = (event, s)"
    using assms by (rule hide_hidden)
  have "hide config event' s = (event', s)"
    using assms by (rule hide_hidden)
  with once show ?thesis by simp
qed

theorem hide_when_hidden_witness:
  "\<not> classList_contains (target_classList example_panel_state) (visibleClass navPanel_config) \<and>
   hide navPanel_config (Some fresh_event) example_panel_state = (Some fresh_event, example_panel_state) \<and>
   hide navPanel_config None (snd (hide navPanel_config (Some fresh_event) example_panel_state)) = (None, example_panel_state)"
proof -
  have h: "\<not> classList_contains (target_classList example_panel_state) (visibleClass navPanel_config)"
    by (simp add: classList_contains_def example_panel_state_def navPanel_config_def)
  from h hide_when_hidden [OF h, of "Some fresh_event" None] show ?thesis
    by blast
qed

lemma toggle_click_eq:
  "toggle_click config s =
     s\<lparr>target_classList := classList_toggle (target_classList s) (visibleClass config)\<rparr>"
  by (simp add: toggle_click_def body_click_def body_click_toggle_def body_click_hide_def)

lemma visible_toggle_click: "visible config (toggle_click config s) = (\<not> visible config s)"
  by (simp add: toggle_click_eq visible_def classList_toggle_def classList_contains_def
      classList_remove_def classList_add_def)

lemma visible_toggle_clicks:
  "visible config ((toggle_click config ^^ n) s) = (if even n then visible config s else \<not> visible config s)"
  by (induction n) (simp_all add: visible_toggle_click)

text \<open>
  Claim C5. An even number of clicks on the toggle anchor, the anchor whose \<open>href\<close> is
  \<open>#\<close> and the panel's id, returns the target to the visibility it had.
\<close>

theorem toggle_even_times:
  assumes "even n"
  shows "visible config ((toggle_click config ^^ n) s) = visible config s"
  using assms by (simp add: visible_toggle_clicks)

theorem toggle_even_times_witness:
  "even (2::nat) \<and>
   visible navPanel_config ((toggle_click navPanel_config ^^ 2) example_panel_state) =
   visible navPanel_config example_panel_state"
proof -
  have h: "even (2::nat)" by simp
  from h toggle_even_times [OF h, of navPanel_config example_panel_state] show ?thesis
    by simp
qed

lemma swipe_result_iff:
  "(hideOnSwipe config \<and> swipe_result (side config) dx dy) = swipe_hides config dx dy"
  by (auto simp: swipe_result_def swipe_hides_def Let_def)

text \<open>
  Claim C7, as amended. A touch move after a recorded touch start calls \<open>hide\<close> exactly
  when \<open>hideOnSwipe\<close> is set, the displacement across the configured side is strictly
  within 20px either way and the displacement towards that side exceeds 50px; a
  displacement of 50px exactly does not. Without a recorded touch start, with
  \<open>hideOnSwipe\<close> unset or with no side configured, a touch move never calls \<open>hide\<close>.
\<close>

theorem touchmove_hides_iff:
  "(touchPos s = Some (x0, y0) \<longrightarrow>
      hide_called (touchmove config g t event s) =
      swipe_hides config (x0 - pageX t) (y0 - pageY t)) \<and>
   (touchPos s = None \<or> \<not> hideOnSwipe config \<or> side config = None \<longrightarrow>
      \<not> hide_called (touchmove config g t event s))"
proof (intro conjI impI)
  assume start: "touchPos s = Some (x0, y0)"
  show "hide_called (touchmove config g t event s) =
        swipe_hides config (x0 - pageX t) (y0 - pageY t)"
  proof (cases "hideOnSwipe config \<and> swipe_result (side config) (x0 - pageX t) (y0 - pageY t)")
    case True
    then have "hide_called (touchmove config g t event s)"
      using start by (simp add: touchmove_def Let_def)
    with True show ?thesis
      by (simp add: swipe_result_iff)
  next
    case False
    then have "\<not> hide_called (touchmove config g t event s)"
      using start by (simp add: touchmove_def Let_def)
    with False show ?thesis
      by (simp add: swipe_result_iff)
  qed
next
  assume off: "touchPos s = None \<or> \<not> hideOnSwipe config \<or> side config = None"
  show "\<not> hide_called (touchmove config g t event s)"
  proof (cases "touchPos s")
    case None
    then show ?thesis by (simp add: touchmove_def)
  next
    case (Some p)
    obtain a b where "p = (a, b)" by (cases p)
    with Some off have "\<not> (hideOnSwipe config \<and> swipe_result (side config) (a - pageX t) (b - pageY t))"
      by (auto simp: swipe_result_def)
    with Some \<open>p = (a, b)\<close> show ?thesis
      by (simp add: touchmove_def Let_def)
  qed
qed

theorem touchmove_hides_iff_witness:
  "touchPos (touchstart \<lparr>pageX = 100, pageY = 200\<rparr> example_panel_state) = Some (100, 200) \<and>
   hide_called (touchmove navPanel_config \<lparr>el_offsetHeight = 600, el_scrollHeight = 600\<rparr>
      \<lparr>pageX = 151, pageY = 210\<rparr> fresh_event (touchstart \<lparr>pageX = 100, pageY = 200\<rparr> example_panel_state))"
proof -
  have h: "touchPos (touchstart \<lparr>pageX = 100, pageY = 200\<rparr> example_panel_state) = Some (100, 200)"
    by (simp add: touchstart_def)
  have w: "swipe_hides navPanel_config (100 - 151) (200 - 210)"
    by (simp add: swipe_hides_def navPanel_config_def)
  from h w touchmove_hides_iff [of "touchstart \<lparr>pageX = 100, pageY = 200\<rparr> example_panel_state"
      100 200 navPanel_config "\<lparr>el_offsetHeight = 600, el_scrollHeight = 600\<rparr>"
      "\<lparr>pageX = 151, pageY = 210\<rparr>" fresh_event]
  show ?thesis
    by simp
qed

text \<open>
  A swipe of 50px exactly towards the side of the panel, with no displacement across:
  the rule of the specification holds, and \<open>hide\<close> is not called.
\<close>

theorem swipe_of_50px_counterexample:
  "spec_swipe_hides navPanel_config (100 - 150) (200 - 200) \<and>
   \<not> hide_called (touchmove navPanel_config \<lparr>el_offsetHeight = 600, el_scrollHeight = 600\<rparr>
      \<lparr>pageX = 150, pageY = 200\<rparr> fresh_event (touchstart \<lparr>pageX = 100, pageY = 200\<rparr> example_panel_state))"
  by (simp add: spec_swipe_hides_def navPanel_config_def touchmove_def touchstart_def
      swipe_result_def example_panel_state_def)

section \<open>Properties of the structured data\<close>

lemma BlogMeta_guards:
  "BlogMeta cfg None p = NoArticle" "BlogMeta cfg (Some a) False = NoPlaceholder"
  by (simp_all add: BlogMeta_def)

lemma BlogMeta_missing:
  "\<not> (present (headline a) \<and> present (datePublished a)) \<Longrightarrow> BlogMeta cfg (Some a) True = MissingData"
  by (auto simp: BlogMeta_def Let_def)

lemma BlogMeta_emits:
  assumes "present (headline a)" "present (datePublished a)"
  shows "\<exists>kvs. BlogMeta cfg (Some a) True = Emitted (JObject kvs) \<and>
           map_of kvs ''headline'' = Some (JString (the (headline a))) \<and>
           map_of kvs ''datePublished'' = Some (JString (the (datePublished a))) \<and>
           map_of kvs ''dateModified'' =
             Some (JString (the (or_else (dateModified a) (datePublished a))))"
  using assms by (simp add: BlogMeta_def Let_def)

text \<open>
  Claim C8. On a page that has the article and the placeholder, the outcome is computed
  from the data attributes and the configuration alone; structured data is emitted exactly
  when \<open>headline\<close> and \<open>datePublished\<close> are present and not empty; and without a
  \<open>dateModified\<close> attribute the field \<open>dateModified\<close> that is emitted is the field
  \<open>datePublished\<close>, the value of the attribute.
\<close>

theorem BlogMeta_emission:
  "(\<exists>j. BlogMeta cfg (Some a) True = Emitted j) = (present (headline a) \<and> present (datePublished a)) \<and>
   (BlogMeta cfg (Some a) True = Emitted j \<and> dateModified a = None \<longrightarrow>
      json_field j ''dateModified'' = json_field j ''datePublished'' \<and>
      json_field j ''datePublished'' = Some (JString (the (datePublished a))))"
proof (cases "present (headline a) \<and> present (datePublished a)")
  case True
  then obtain kvs where e: "BlogMeta cfg (Some a) True = Emitted (JObject kvs)"
    and p: "map_of kvs ''datePublished'' = Some (JString (the (datePublished a)))"
    and m: "map_of kvs ''dateModified'' = Some (JString (the (or_else (dateModified a) (datePublished a))))"
    using BlogMeta_emits [of a cfg] by blast
  have "dateModified a = None \<Longrightarrow> or_else (dateModified a) (datePublished a) = datePublished a"
    by (simp add: or_else_def present_def)
  with True e p m show ?thesis
    by auto
next
  case False
  then have "BlogMeta cfg (Some a) True = MissingData"
    by (rule BlogMeta_missing)
  with False show ?thesis
    by simp
qed

theorem BlogMeta_emission_witness:
  "present (headline example_article) \<and> present (datePublished example_article) \<and>
   dateModified example_article = None \<and>
   (\<exists>j. BlogMeta (Some SITE_CONFIG) (Some example_article) True = Emitted j \<and>
        json_field j ''dateModified'' = Some (JString ''2020-01-01''))"
proof -
  have p: "present (headline example_article)" "present (datePublished example_article)"
    and m: "dateModified example_article = None"
    and d: "the (datePublished example_article) = ''2020-01-01''"
    by (simp_all add: example_article_def present_def)
  from p BlogMeta_emission [of "Some SITE_CONFIG" example_article]
  obtain j where j: "BlogMeta (Some SITE_CONFIG) (Some example_article) True = Emitted j"
    by blast
  with m d BlogMeta_emission [of "Some SITE_CONFIG" example_article j]
  have "json_field j ''dateModified'' = Some (JString ''2020-01-01'')"
    by simp
  with p m j show ?thesis
    by blast
qed


section \<open>Properties of the scroll spy's update\<close>

lemma update_first_none:
  "\<forall>x \<in> set xs. \<not> Q x \<Longrightarrow> length (filter Q (update_first P f xs)) \<le> 1"
  by (induction xs) auto

lemma update_first_cases:
  "y \<in> set (update_first P f xs) \<Longrightarrow> y \<in> set xs \<or> (\<exists>x \<in> set xs. P x \<and> y = f x)"
  by (induction xs) (auto split: if_splits)

lemma clear_desktop_no_current:
  assumes "\<forall>it \<in> set (nav_items n). item_ok it"
  shows "\<forall>it \<in> set (nav_items (clear_desktop n)). ''current'' \<notin> set (li_classList it)"
  using assms by (auto simp: clear_desktop_def item_ok_def classList_remove_def)

lemma clear_desktop_ok:
  assumes "\<forall>it \<in> set (nav_items n). item_ok it"
  shows "\<forall>it \<in> set (nav_items (clear_desktop n)). item_ok it"
  using assms by (auto simp: clear_desktop_def item_ok_def)

lemma clear_desktop_logo: "logo_href (clear_desktop n) = logo_href n"
  by (simp add: clear_desktop_def)

lemma mark_desktop_logo: "logo_href (mark_desktop i n) = logo_href n"
  by (simp add: mark_desktop_def)

lemma mark_desktop_ok:
  assumes "\<forall>it \<in> set (nav_items n). item_ok it"
  shows "\<forall>it \<in> set (nav_items (mark_desktop i n)). item_ok it"
proof (cases "logo_href n = CHR ''#'' # i")
  case True
  with assms show ?thesis by (simp add: mark_desktop_def)
next
  case False
  show ?thesis
  proof
    fix it assume "it \<in> set (nav_items (mark_desktop i n))"
    with False have "it \<in> set (update_first (\<lambda>it. a_href it = CHR ''#'' # i)
        (\<lambda>it. it\<lparr>li_classList := classList_add (li_classList it) ''current''\<rparr>) (nav_items n))"
      by (simp add: mark_desktop_def)
    then consider "it \<in> set (nav_items n)"
      | x where "x \<in> set (nav_items n)" "a_href x = CHR ''#'' # i"
          "it = x\<lparr>li_classList := classList_add (li_classList x) ''current''\<rparr>"
      using update_first_cases by fastforce
    then show "item_ok it"
    proof cases
      case 1
      with assms show ?thesis by simp
    next
      case 2
      with assms have "item_ok x" by simp
      with 2 have "''scrolly'' \<in> set (a_classList x)"
        by (auto simp: item_ok_def)
      with 2 show ?thesis by (simp add: item_ok_def)
    qed
  qed
qed

lemma mark_desktop_count:
  assumes "\<forall>it \<in> set (nav_items n). ''current'' \<notin> set (li_classList it)"
  shows "length (filter (\<lambda>it. ''current'' \<in> set (li_classList it)) (nav_items (mark_desktop i n))) \<le> 1"
proof (cases "logo_href n = CHR ''#'' # i")
  case True
  with assms show ?thesis by (simp add: mark_desktop_def)
next
  case False
  with assms update_first_none [of "nav_items n" "\<lambda>it. ''current'' \<in> set (li_classList it)"]
  show ?thesis by (simp add: mark_desktop_def)
qed

lemma clear_mobile_links:
  assumes "\<forall>l \<in> set links. ''link'' \<in> set (m_classList l)"
  shows "\<forall>l \<in> set (clear_mobile links). ''link'' \<in> set (m_classList l) \<and> ''current'' \<notin> set (m_classList l)"
  using assms by (auto simp: clear_mobile_def classList_remove_def)

lemma mark_mobile_links:
  assumes "\<forall>l \<in> set links. ''link'' \<in> set (m_classList l)"
  shows "\<forall>l \<in> set (mark_mobile i links). ''link'' \<in> set (m_classList l)"
proof
  fix l assume "l \<in> set (mark_mobile i links)"
  then consider "l \<in> set links"
    | x where "x \<in> set links" "l = x\<lparr>m_classList := classList_add (m_classList x) ''current''\<rparr>"
    unfolding mark_mobile_def using update_first_cases by fastforce
  then show "''link'' \<in> set (m_classList l)"
    using assms by cases (auto simp: classList_add_def)
qed

lemma mark_mobile_count:
  assumes "\<forall>l \<in> set links. ''current'' \<notin> set (m_classList l)"
  shows "length (filter (\<lambda>l. ''current'' \<in> set (m_classList l)) (mark_mobile i links)) \<le> 1"
  unfolding mark_mobile_def
  using assms update_first_none [of links "\<lambda>l. ''current'' \<in> set (m_classList l)"] by simp

lemma none_current_count:
  "\<forall>x \<in> set xs. \<not> Q x \<Longrightarrow> length (filter Q xs) \<le> 1"
  by (induction xs) auto

lemma updateCurrentSection_inv:
  assumes "spy_inv s"
  shows "spy_inv (updateCurrentSection i s)"
proof (cases "currentSection s = i")
  case True
  with assms show ?thesis by (simp add: updateCurrentSection_def)
next
  case False
  let ?n1 = "clear_desktop (nav s)"
  let ?n2 = "if truthy_id i then mark_desktop (the i) ?n1 else ?n1"
  from assms have logo: "\<forall>i. logo_href (nav s) \<noteq> CHR ''#'' # i"
    and items: "\<forall>it \<in> set (nav_items (nav s)). item_ok it"
    by (simp_all add: spy_inv_def)
  have ok1: "\<forall>it \<in> set (nav_items ?n1). item_ok it"
    using items by (rule clear_desktop_ok)
  have none1: "\<forall>it \<in> set (nav_items ?n1). ''current'' \<notin> set (li_classList it)"
    using items by (rule clear_desktop_no_current)
  have ok2: "\<forall>it \<in> set (nav_items ?n2). item_ok it"
    using ok1 mark_desktop_ok [of ?n1] by simp
  have count2: "length (filter (\<lambda>it. ''current'' \<in> set (li_classList it)) (nav_items ?n2)) \<le> 1"
    using none1 mark_desktop_count [of ?n1] none_current_count [of "nav_items ?n1"] by simp
  have logo2: "\<forall>i. logo_href ?n2 \<noteq> CHR ''#'' # i"
    using logo by (simp add: clear_desktop_logo mark_desktop_logo)
  have nav': "nav (updateCurrentSection i s) = ?n2"
    using False by (simp add: updateCurrentSection_def Let_def)
  have panel: "(case navPanel (updateCurrentSection i s) of None \<Rightarrow> True
       | Some links \<Rightarrow> \<forall>l \<in> set links. ''link'' \<in> set (m_classList l)) \<and>
      current_links (updateCurrentSection i s) \<le> 1"
  proof (cases "navPanel s")
    case None
    with False show ?thesis
      by (simp add: updateCurrentSection_def Let_def current_links_def)
  next
    case (Some links)
    with assms have l0: "\<forall>l \<in> set links. ''link'' \<in> set (m_classList l)"
      by (simp add: spy_inv_def)
    let ?l1 = "clear_mobile links"
    let ?l2 = "if truthy_id i then mark_mobile (the i) ?l1 else ?l1"
    have l1: "\<forall>l \<in> set ?l1. ''link'' \<in> set (m_classList l)"
      and c1: "\<forall>l \<in> set ?l1. ''current'' \<notin> set (m_classList l)"
      using clear_mobile_links [OF l0] by simp_all
    have l2: "\<forall>l \<in> set ?l2. ''link'' \<in> set (m_classList l)"
      using l1 mark_mobile_links [of ?l1] by simp
    have c2: "length (filter (\<lambda>l. ''current'' \<in> set (m_classList l)) ?l2) \<le> 1"
      using c1 mark_mobile_count [of ?l1] none_current_count [of ?l1] by simp
    have "navPanel (updateCurrentSection i s) = Some ?l2"
      using False Some by (simp add: updateCurrentSection_def Let_def)
    with l2 c2 show ?thesis
      by (simp add: current_links_def)
  qed
  from nav' ok2 count2 logo2 panel show ?thesis
    by (simp add: spy_inv_def current_items_def)
qed

lemma updates_inv:
  "spy_inv s \<Longrightarrow> spy_inv (foldl (\<lambda>s i. updateCurrentSection i s) s ids)"
  by (induction ids arbitrary: s) (simp_all add: updateCurrentSection_inv)

lemma join_Cons_prefix: "\<exists>r. join sep (x # ys) = x @ r"
  by (cases ys) simp_all

lemma getBasePath_hd: "getBasePath loc = [] \<or> (\<exists>r. getBasePath loc = CHR ''.'' # r)"
proof -
  have dots: "\<exists>r. join ''/'' (replicate (Suc d) ''..'') @ ''/'' = CHR ''.'' # r" for d
    using join_Cons_prefix [of "''/''" "''..''" "replicate d ''..''"] by auto
  have pos: "\<exists>r. join ''/'' (replicate d ''..'') @ ''/'' = CHR ''.'' # r" if "0 < d" for d
    using that dots [of "d - 1"] by simp
  have len: "Suc 0 < length xs" if "xs \<noteq> []" "length xs \<noteq> Suc 0" for xs :: "string list"
    using that by (cases xs) auto
  show ?thesis
    unfolding getBasePath_def Let_def
    by (auto intro!: pos len simp del: replicate.simps split: if_splits)
qed

lemma homepage_logo: "logo_href (homepage_nav loc) \<noteq> CHR ''#'' # i"
  using getBasePath_hd [of loc] by (auto simp: homepage_nav_def Let_def)

lemma homepage_start_inv: "spy_inv (homepage_start loc has_panel)"
  using homepage_logo [of loc]
  by (simp add: spy_inv_def homepage_start_def homepage_nav_def Let_def navItem_def item_ok_def
      current_items_def current_links_def panel_links_def nav_anchors_def)

text \<open>
  Claim C6. On the homepage, from the nav element as the component builds it and the
  panel as \<open>main.js\<close> builds it (or without a panel), after every sequence of updates,
  for ids that the selectors take literally, at most one list item of the desktop nav and
  at most one link of the panel carry the class \<open>current\<close>.
\<close>

theorem scroll_spy_at_most_one_current:
  assumes "list_all safe_id ids"
  shows "current_items (foldl (\<lambda>s i. updateCurrentSection i s) (homepage_start loc has_panel) ids) \<le> 1 \<and>
         current_links (foldl (\<lambda>s i. updateCurrentSection i s) (homepage_start loc has_panel) ids) \<le> 1"
proof -
  have "spy_inv (foldl (\<lambda>s i. updateCurrentSection i s) (homepage_start loc has_panel) ids)"
    using homepage_start_inv by (rule updates_inv)
  then show ?thesis
    by (simp add: spy_inv_def)
qed

theorem scroll_spy_at_most_one_current_witness:
  "list_all safe_id [Some ''about'', None, Some ''contact''] \<and>
   current_items (foldl (\<lambda>s i. updateCurrentSection i s)
     (homepage_start \<lparr>pathname = ''/'', hostname = ''mbsecure.nl''\<rparr> True)
     [Some ''about'', None, Some ''contact'']) \<le> 1 \<and>
   current_links (foldl (\<lambda>s i. updateCurrentSection i s)
     (homepage_start \<lparr>pathname = ''/'', hostname = ''mbsecure.nl''\<rparr> True)
     [Some ''about'', None, Some ''contact'']) \<le> 1"
proof -
  have h: "list_all safe_id [Some ''about'', None, Some ''contact'']"
    by (simp add: safe_id_def selector_safe_def)
  from h scroll_spy_at_most_one_current [OF h, of "\<lparr>pathname = ''/'', hostname = ''mbsecure.nl''\<rparr>" True]
  show ?thesis
    by blast
qed

text \<open>The same for scroll events: the id that \<open>onScroll\<close> passes on is that of a section.\<close>

lemma scroll_events_inv:
  "spy_inv s \<Longrightarrow> spy_inv (foldl (\<lambda>s e. onScroll sections (fst e) (snd e) s) s events)"
  by (induction events arbitrary: s) (simp_all add: onScroll_def updateCurrentSection_inv)

lemma scroll_events_at_most_one_current:
  assumes "list_all (\<lambda>sec. selector_safe (section_id sec)) sections"
  shows "current_items (foldl (\<lambda>s e. onScroll sections (fst e) (snd e) s) (homepage_start loc has_panel) events) \<le> 1 \<and>
         current_links (foldl (\<lambda>s e. onScroll sections (fst e) (snd e) s) (homepage_start loc has_panel) events) \<le> 1"
proof -
  have "spy_inv (foldl (\<lambda>s e. onScroll sections (fst e) (snd e) s) (homepage_start loc has_panel) events)"
    using homepage_start_inv by (rule scroll_events_inv)
  then show ?thesis
    by (simp add: spy_inv_def)
qed


end
